theory Spec2Isabelle
  imports Main
begin

section \<open>Constants and small helpers of game.py\<close>

type_synonym pos = "int \<times> int"

text \<open>
  \<open>Direction\<close> is imported from \<open>characters\<close>. \<open>next_frame\<close> puts the rope's direction
  into \<open>_state\<close>, \<open>json_state\<close> passes the dictionary to \<open>json.dumps\<close>, and viewer.py
  reads the direction back as one of the integers 0..3 (\<open>ROPE_EDGE\<close>: "index are
  Directions"; \<open>dir in [1, 3]\<close> is "East or West"; for \<open>dir in [0, 3]\<close> the sprite starts
  at the rope's tip, so 0 points up and 3 points left). A direction is therefore an
  integer-valued enumeration member, and Python's truth test of such a member is the
  truth test of its integer.
\<close>

datatype direction = NORTH | EAST | SOUTH | WEST

fun dir_value :: "direction \<Rightarrow> int" where
  "dir_value NORTH = 0"
| "dir_value EAST = 1"
| "dir_value SOUTH = 2"
| "dir_value WEST = 3"

text \<open>Python's truth test of \<open>self._dir\<close>: \<open>None\<close> and the member of value 0 are false.\<close>

fun truthy :: "direction option \<Rightarrow> bool" where
  "truthy None = False"
| "truthy (Some d) = (dir_value d \<noteq> 0)"

datatype enemy_type = Fygar | Pooka

datatype error = KeyError

definition LIVES :: int where "LIVES = 3"
definition INITIAL_SCORE :: int where "INITIAL_SCORE = 0"
definition TIMEOUT :: int where "TIMEOUT = 3000"
definition GAME_SPEED :: int where "GAME_SPEED = 10"
definition MAP_SIZE :: "int \<times> int" where "MAP_SIZE = (32, 32)"
definition MAX_LEN_ROPE :: int where "MAX_LEN_ROPE = 3"
definition ROCK_KILL_POINTS :: int where "ROCK_KILL_POINTS = 1000"

text \<open>The dictionary \<open>LEVEL_ENEMIES\<close>; a key outside 1..3 is a \<open>KeyError\<close> at the lookup.\<close>

definition LEVEL_ENEMIES :: "int \<Rightarrow> enemy_type list option" where
  "LEVEL_ENEMIES level =
     (if level = 1 then Some (replicate 2 Fygar @ replicate 1 Pooka)
      else if level = 2 then Some (replicate 3 Fygar @ replicate 2 Pooka)
      else if level = 3 then Some (replicate 5 Fygar @ replicate 2 Pooka)
      else None)"

definition key2direction :: "string \<Rightarrow> direction option" where
  "key2direction key =
     (if key = ''w'' then Some NORTH
      else if key = ''a'' then Some WEST
      else if key = ''s'' then Some SOUTH
      else if key = ''d'' then Some EAST
      else None)"

text \<open>Python's \<open>s in t\<close> on strings: \<open>s\<close> occurs in \<open>t\<close> as a contiguous run.\<close>

fun py_in :: "string \<Rightarrow> string \<Rightarrow> bool" where
  "py_in s [] = (s = [])"
| "py_in s (c # cs) = (take (length s) (c # cs) = s \<or> py_in s cs)"

text \<open>
  \<open>str.isupper\<close>: at least one cased character and no lower-case one. The model knows
  the ASCII letters, which covers every key that passes the assertion of
  \<open>update_digdug\<close> (the runs of \<open>wasdAB\<close>).
\<close>

definition is_lower :: "char \<Rightarrow> bool" where
  "is_lower c = (c \<in> set ''abcdefghijklmnopqrstuvwxyz'')"

definition is_upper :: "char \<Rightarrow> bool" where
  "is_upper c = (c \<in> set ''ABCDEFGHIJKLMNOPQRSTUVWXYZ'')"

definition py_isupper :: "string \<Rightarrow> bool" where
  "py_isupper s = (filter is_upper s \<noteq> [] \<and> filter is_lower s = [])"

section \<open>The entities the game consumes\<close>

text \<open>
  characters.py and mapa.py are not part of the sources at hand. The records hold what
  game.py reads or writes of a player, an enemy and a rock; the methods game.py calls on
  them follow the collaborator contracts of the specification.
\<close>

record digdug =
  d_pos :: pos
  d_lives :: int
  d_direction :: direction
  d_spawn :: pos

record enemy =
  e_name :: enemy_type
  e_id :: nat
  e_pos :: pos
  e_alive :: bool
  e_exit :: bool
  e_spawn :: pos
  e_rock :: bool

record rock =
  rk_id :: nat
  rk_pos :: pos

text \<open>
  Modelled from the spec: \<open>DigDug(spawn, lives)\<close> of characters.py, "creates the player
  character at the terrain spawn with the configured life count". The facing of a new
  player is not stated; it is the parameter \<open>facing\<close>.
\<close>

definition DigDug :: "direction \<Rightarrow> pos \<Rightarrow> int \<Rightarrow> digdug" where
  "DigDug facing p lives = \<lparr>d_pos = p, d_lives = lives, d_direction = facing, d_spawn = p\<rparr>"

text \<open>
  Modelled from the spec: \<open>DigDug.kill\<close> of characters.py, "decrement life count by
  exactly one".
\<close>

definition digdug_kill :: "digdug \<Rightarrow> digdug" where
  "digdug_kill d = d\<lparr>d_lives := d_lives d - 1\<rparr>"

text \<open>
  Modelled from the spec: \<open>DigDug.respawn\<close> of characters.py, "move the player back to
  the fixed spawn point (alive, not removed)". The spawn point is the one the player was
  constructed with; \<open>Game.start\<close> passes the terrain's \<open>digdug_spawn\<close>.
\<close>

definition digdug_respawn :: "digdug \<Rightarrow> digdug" where
  "digdug_respawn d = d\<lparr>d_pos := d_spawn d\<rparr>"

text \<open>
  Modelled from the spec: the enemy constructors \<open>Fygar(p)\<close> and \<open>Pooka(p)\<close> of
  characters.py: an alive enemy that has not exited, standing on spawn point \<open>p\<close>. The
  identity is the slot number.
\<close>

definition Enemy :: "enemy_type \<Rightarrow> nat \<Rightarrow> pos \<Rightarrow> enemy" where
  "Enemy t i p =
     \<lparr>e_name = t, e_id = i, e_pos = p, e_alive = True, e_exit = False, e_spawn = p,
      e_rock = False\<rparr>"

text \<open>
  Modelled from the spec: \<open>Enemy.kill(rock=False)\<close> of characters.py, "kill the enemy"
  (the alive flag goes false), remembering whether the cause was a rock.
\<close>

definition enemy_kill :: "bool \<Rightarrow> enemy \<Rightarrow> enemy" where
  "enemy_kill by_rock e = e\<lparr>e_alive := False, e_rock := by_rock\<rparr>"

text \<open>
  Modelled from the spec: \<open>Enemy.respawn\<close> of characters.py, "force that enemy to respawn
  at its own spawn point (contact with the player never kills the enemy or removes it
  from play)".
\<close>

definition enemy_respawn :: "enemy \<Rightarrow> enemy" where
  "enemy_respawn e = e\<lparr>e_pos := e_spawn e\<rparr>"

text \<open>Modelled from the spec: \<open>Rock(p)\<close> of characters.py, a rock on seed position \<open>p\<close>.\<close>

definition Rock :: "nat \<Rightarrow> pos \<Rightarrow> rock" where
  "Rock i p = \<lparr>rk_id = i, rk_pos = p\<rparr>"

text \<open>
  What game.py takes from its collaborators without looking inside: the terrain (type
  \<open>'m\<close>) with its queries and constructors, the three movement routines, the tiered
  point table and the camper test \<open>math.dist(a, b) < VITAL_SPACE\<close>. Every theorem below
  that mentions \<open>env\<close> holds for all of them.
\<close>

record 'm collab =
  calc_pos :: "'m \<Rightarrow> pos \<Rightarrow> direction \<Rightarrow> pos"
  Map_empty :: "int \<times> int \<Rightarrow> 'm"
  Map_level :: "int \<Rightarrow> int \<times> int \<Rightarrow> 'm"
  map_size :: "'m \<Rightarrow> int \<times> int"
  map_level :: "'m \<Rightarrow> int"
  map_tiles :: "'m \<Rightarrow> int list list"
  ver_tiles :: "'m \<Rightarrow> int"
  digdug_spawn :: "'m \<Rightarrow> pos"
  enemies_spawn :: "'m \<Rightarrow> pos list"
  map_rocks :: "'m \<Rightarrow> pos list"
  digdug_facing :: direction
  digdug_move ::
    "'m \<Rightarrow> direction option \<Rightarrow> enemy list \<Rightarrow> rock list \<Rightarrow> digdug \<Rightarrow> 'm \<times> digdug"
  enemy_move :: "'m \<Rightarrow> digdug \<Rightarrow> enemy list \<Rightarrow> rock list \<Rightarrow> enemy \<Rightarrow> enemy"
  rock_move :: "'m \<Rightarrow> digdug \<Rightarrow> rock list \<Rightarrow> rock \<Rightarrow> rock"
  tier_points :: "enemy \<Rightarrow> int \<Rightarrow> int"
  vital :: "pos \<Rightarrow> pos \<Rightarrow> bool"

text \<open>
  Modelled from the spec: \<open>Enemy.points(ver_tiles)\<close> of characters.py, "kills caused
  specifically by a rock always award a fixed flat bonus value; kills from other causes
  award a tier-based value".
\<close>

definition enemy_points :: "'m collab \<Rightarrow> enemy \<Rightarrow> int \<Rightarrow> int" where
  "enemy_points env e vt = (if e_rock e then ROCK_KILL_POINTS else tier_points env e vt)"

section \<open>class Rope\<close>

text \<open>
  A rope keeps a reference to the map object it was created with. \<open>rope_map = None\<close>
  says that this object is the game's current map (the rope sees what the player digs);
  \<open>Some m\<close> is a map object the game has since replaced.
\<close>

record 'm rope =
  rope_pos :: "pos list"
  rope_dir :: "direction option"
  rope_map :: "'m option"

definition Rope :: "'m rope" where
  "Rope = \<lparr>rope_pos = [], rope_dir = None, rope_map = None\<rparr>"

definition rope_terrain :: "'m \<Rightarrow> 'm rope \<Rightarrow> 'm" where
  "rope_terrain m r = (case rope_map r of None \<Rightarrow> m | Some m' \<Rightarrow> m')"

text \<open>The local \<open>new_pos\<close> of \<open>shoot\<close>: one step from the tip, or from \<open>pos\<close> when empty.\<close>

definition new_pos :: "'m collab \<Rightarrow> 'm \<Rightarrow> 'm rope \<Rightarrow> pos \<Rightarrow> direction \<Rightarrow> pos" where
  "new_pos env m r p d =
     (if length (rope_pos r) > 0
      then calc_pos env (rope_terrain m r) (last (rope_pos r)) d
      else calc_pos env (rope_terrain m r) p d)"

definition shoot :: "'m collab \<Rightarrow> 'm \<Rightarrow> 'm rope \<Rightarrow> pos \<Rightarrow> direction \<Rightarrow> 'm rope" where
  "shoot env m r p d =
     (if truthy (rope_dir r) \<and> Some d \<noteq> rope_dir r
      then r\<lparr>rope_pos := [], rope_dir := None\<rparr>
      else if new_pos env m r p d \<in> set (rope_pos r)
      then r\<lparr>rope_pos := [], rope_dir := None\<rparr>
      else
        let ps = rope_pos r @ [new_pos env m r p d]
        in if int (length ps) > MAX_LEN_ROPE
           then r\<lparr>rope_pos := [], rope_dir := Some d\<rparr>
           else r\<lparr>rope_pos := ps, rope_dir := Some d\<rparr>)"

text \<open>
  \<open>Rope.hit\<close>: the first enemy of the list standing on a rope cell is killed and the
  call returns \<open>True\<close>; the result is the flag and the list after the call.
\<close>

fun hit :: "'m rope \<Rightarrow> enemy list \<Rightarrow> bool \<times> enemy list" where
  "hit r [] = (False, [])"
| "hit r (e # es) =
     (if e_pos e \<in> set (rope_pos r) then (True, enemy_kill False e # es)
      else (case hit r es of (b, es') \<Rightarrow> (b, e # es')))"

section \<open>class Game\<close>

text \<open>The dictionary \<open>_state\<close> that \<open>next_frame\<close> assembles; the key \<open>rope\<close> may be absent.\<close>

record snapshot =
  s_level :: int
  s_step :: int
  s_timeout :: int
  s_player :: string
  s_score :: int
  s_lives :: int
  s_digdug :: pos
  s_enemies :: "(enemy_type \<times> nat \<times> pos) list"
  s_rocks :: "(nat \<times> pos) list"
  s_rope :: "(direction option \<times> pos list) option"

text \<open>
  The attributes \<open>__init__\<close> assigns are the fields of \<open>game_core\<close>; \<open>_player_name\<close>,
  \<open>_digdug\<close>, \<open>_lastkeypress\<close> and \<open>_rocks\<close> exist only once \<open>start\<close> has run.
  \<open>g_state = None\<close> is the empty dictionary.
\<close>

record 'm game_core =
  g_initial_level :: int
  g_running :: bool
  g_timeout :: int
  g_score :: int
  g_step :: int
  g_total_steps :: int
  g_state :: "snapshot option"
  g_initial_lives :: int
  g_map :: 'm
  g_enemies :: "enemy list"
  g_rope :: "'m rope"

record 'm game = "'m game_core" +
  g_player_name :: string
  g_digdug :: digdug
  g_lastkeypress :: string
  g_rocks :: "rock list"

definition Game :: "'m collab \<Rightarrow> int \<Rightarrow> int \<Rightarrow> int \<Rightarrow> int \<times> int \<Rightarrow> 'm game_core" where
  "Game env level lives timeout sz =
     \<lparr>g_initial_level = level, g_running = False, g_timeout = timeout, g_score = 0,
      g_step = 0, g_total_steps = 0, g_state = None, g_initial_lives = lives,
      g_map = Map_empty env sz, g_enemies = [], g_rope = Rope\<rparr>"

definition stop :: "('m, 'z) game_core_scheme \<Rightarrow> ('m, 'z) game_core_scheme" where
  "stop g = g\<lparr>g_total_steps := g_total_steps g + g_step g, g_running := False\<rparr>"

definition quit :: "('m, 'z) game_core_scheme \<Rightarrow> ('m, 'z) game_core_scheme" where
  "quit g = g\<lparr>g_running := False\<rparr>"

definition keypress :: "string \<Rightarrow> 'm game \<Rightarrow> 'm game" where
  "keypress key g = g\<lparr>g_lastkeypress := key\<rparr>"

text \<open>
  \<open>next_level\<close>. The win check at its top is inside the docstring, so it is not code.
  The statements run in the source's order, and the lookup \<open>LEVEL_ENEMIES[level]\<close> comes
  after the map, the player and the counters are updated; an exception leaves the
  routine with the error and the model drops the half-updated object. The rope keeps the
  map object it was created with, which from now on is not the game's map.
\<close>

definition next_level :: "'m collab \<Rightarrow> int \<Rightarrow> 'm game \<Rightarrow> error + 'm game" where
  "next_level env level g =
     (let m = Map_level env level (map_size env (g_map g));
          r = (g_rope g)\<lparr>rope_map := Some (rope_terrain (g_map g) (g_rope g))\<rparr>;
          g1 = g\<lparr>g_map := m, g_rope := r, g_digdug := digdug_respawn (g_digdug g),
                 g_total_steps := g_total_steps g + g_step g, g_step := 0,
                 g_lastkeypress := []\<rparr>
      in case LEVEL_ENEMIES level of
           None \<Rightarrow> Inl KeyError
         | Some ts \<Rightarrow>
             Inr (g1\<lparr>g_enemies :=
                        map (\<lambda>(i, t, p). Enemy t i p)
                          (enumerate 0 (zip ts (enemies_spawn env m))),
                      g_rocks := map (\<lambda>(i, p). Rock i p) (enumerate 0 (map_rocks env m))\<rparr>))"

text \<open>
  \<open>start\<close>, on a game object that was constructed or has been played before. The two
  attributes that \<open>next_level\<close> assigns before anything reads them start out empty.
\<close>

definition start :: "'m collab \<Rightarrow> string \<Rightarrow> ('m, 'z) game_core_scheme \<Rightarrow> error + 'm game" where
  "start env player_name g =
     next_level env (g_initial_level g)
       \<lparr>g_initial_level = g_initial_level g, g_running = True, g_timeout = g_timeout g,
        g_score = INITIAL_SCORE, g_step = g_step g, g_total_steps = 0,
        g_state = g_state g, g_initial_lives = g_initial_lives g, g_map = g_map g,
        g_enemies = g_enemies g, g_rope = g_rope g, g_player_name = player_name,
        g_digdug = DigDug (digdug_facing env) (digdug_spawn env (g_map g)) (g_initial_lives g),
        g_lastkeypress = [], g_rocks = []\<rparr>"

text \<open>
  The \<open>try\<close> block of \<open>update_digdug\<close>. A key that fails the assertion is logged and
  changes nothing.
\<close>

definition try_key :: "'m collab \<Rightarrow> 'm game \<Rightarrow> 'm game" where
  "try_key env g =
     (let key = g_lastkeypress g
      in if py_in key ''wasdAB'' \<or> key = [] then
           (if py_isupper key then
              (if py_in key ''AB'' then
                 (let r = shoot env (g_map g) (g_rope g) (d_pos (g_digdug g))
                            (d_direction (g_digdug g))
                  in case hit r (g_enemies g) of
                       (h, es) \<Rightarrow> g\<lparr>g_rope := (if h then Rope else r), g_enemies := es\<rparr>)
               else g)
            else
              (let g' = (if py_in key ''wasd'' \<and> key \<noteq> [] then g\<lparr>g_rope := Rope\<rparr> else g)
               in case digdug_move env (g_map g') (key2direction key) (g_enemies g')
                         (g_rocks g') (g_digdug g') of
                    (m, d) \<Rightarrow> g'\<lparr>g_map := m, g_digdug := d\<rparr>))
         else g)"

text \<open>
  \<open>update_digdug\<close>: the \<open>try\<close> block, the \<open>finally\<close> clause that clears the key in
  every case, and the level check, which compares a length with \<open>< 0\<close> as the source
  does.
\<close>

definition update_digdug :: "'m collab \<Rightarrow> 'm game \<Rightarrow> error + 'm game" where
  "update_digdug env g =
     (let g1 = (try_key env g)\<lparr>g_lastkeypress := []\<rparr>
      in if int (length (g_enemies g1)) < 0
         then next_level env (map_level env (g_map g1) + 1) g1
         else Inr g1)"

definition kill_digdug :: "'m collab \<Rightarrow> 'm game \<Rightarrow> 'm game" where
  "kill_digdug env g =
     (let g1 = g\<lparr>g_digdug := digdug_kill (g_digdug g)\<rparr>
      in if d_lives (g_digdug g1) > 0 then
           (let g2 = g1\<lparr>g_digdug := digdug_respawn (g_digdug g1)\<rparr>
            in g2\<lparr>g_enemies :=
                    map (\<lambda>e. if vital env (d_pos (g_digdug g2)) (e_pos e)
                              then enemy_respawn e else e)
                      (g_enemies g2)\<rparr>)
         else stop g1)"

text \<open>
  \<open>collision\<close>, first loop: the enemy at index \<open>i\<close> of the list as it is when the loop
  reaches it.
\<close>

definition collide_enemy :: "'m collab \<Rightarrow> nat \<Rightarrow> 'm game \<Rightarrow> 'm game" where
  "collide_enemy env i g =
     (if e_pos (g_enemies g ! i) = d_pos (g_digdug g) then
        (let g1 = kill_digdug env g
         in g1\<lparr>g_enemies := (g_enemies g1)[i := enemy_respawn (g_enemies g1 ! i)]\<rparr>)
      else g)"

text \<open>\<open>collision\<close>, the inner loop of a rock over the enemies: kill and credit.\<close>

fun crush :: "'m collab \<Rightarrow> int \<Rightarrow> rock \<Rightarrow> enemy list \<Rightarrow> int \<Rightarrow> enemy list \<times> int" where
  "crush env vt r [] score = ([], score)"
| "crush env vt r (e # es) score =
     (if rk_pos r = e_pos e then
        (let e' = enemy_kill True e
         in case crush env vt r es (score + enemy_points env e' vt) of
              (es', score') \<Rightarrow> (e' # es', score'))
      else (case crush env vt r es score of (es', score') \<Rightarrow> (e # es', score')))"

definition collide_rock :: "'m collab \<Rightarrow> rock \<Rightarrow> 'm game \<Rightarrow> 'm game" where
  "collide_rock env r g =
     (let g1 = (if rk_pos r = d_pos (g_digdug g) then kill_digdug env g else g)
      in case crush env (ver_tiles env (g_map g1)) r (g_enemies g1) (g_score g1) of
           (es, score) \<Rightarrow> g1\<lparr>g_enemies := es, g_score := score\<rparr>)"

definition collision :: "'m collab \<Rightarrow> 'm game \<Rightarrow> 'm game" where
  "collision env g =
     (let g1 = fold (collide_enemy env) [0..<length (g_enemies g)] g
      in fold (collide_rock env) (g_rocks g1) g1)"

text \<open>The two movement loops of \<open>next_frame\<close>.\<close>

definition move_enemy :: "'m collab \<Rightarrow> nat \<Rightarrow> 'm game \<Rightarrow> 'm game" where
  "move_enemy env i g =
     (if e_alive (g_enemies g ! i) then
        g\<lparr>g_enemies :=
            (g_enemies g)[i := enemy_move env (g_map g) (g_digdug g) (g_enemies g) (g_rocks g)
                                 (g_enemies g ! i)]\<rparr>
      else g)"

definition move_rock :: "'m collab \<Rightarrow> nat \<Rightarrow> 'm game \<Rightarrow> 'm game" where
  "move_rock env i g =
     g\<lparr>g_rocks := (g_rocks g)[i := rock_move env (g_map g) (g_digdug g) (g_rocks g)
                                     (g_rocks g ! i)]\<rparr>"

definition move_enemies :: "'m collab \<Rightarrow> 'm game \<Rightarrow> 'm game" where
  "move_enemies env g = fold (move_enemy env) [0..<length (g_enemies g)] g"

definition move_rocks :: "'m collab \<Rightarrow> 'm game \<Rightarrow> 'm game" where
  "move_rocks env g = fold (move_rock env) [0..<length (g_rocks g)] g"

text \<open>The score line of \<open>next_frame\<close>: the points of every enemy of the list that is not alive.\<close>

definition credit_dead :: "'m collab \<Rightarrow> 'm game \<Rightarrow> 'm game" where
  "credit_dead env g =
     g\<lparr>g_score := g_score g +
         sum_list (map (\<lambda>e. enemy_points env e (ver_tiles env (g_map g)))
                    (filter (\<lambda>e. \<not> e_alive e) (g_enemies g)))\<rparr>"

text \<open>The filter line of \<open>next_frame\<close>: "remove dead and exited enemies".\<close>

definition drop_gone :: "'m game \<Rightarrow> 'm game" where
  "drop_gone g = g\<lparr>g_enemies := filter (\<lambda>e. e_alive e \<and> \<not> e_exit e) (g_enemies g)\<rparr>"

definition make_state :: "'m collab \<Rightarrow> 'm game \<Rightarrow> snapshot" where
  "make_state env g =
     \<lparr>s_level = map_level env (g_map g), s_step = g_step g, s_timeout = g_timeout g,
      s_player = g_player_name g, s_score = g_score g, s_lives = d_lives (g_digdug g),
      s_digdug = d_pos (g_digdug g),
      s_enemies = map (\<lambda>e. (e_name e, e_id e, e_pos e)) (g_enemies g),
      s_rocks = map (\<lambda>r. (rk_id r, rk_pos r)) (g_rocks g),
      s_rope = (if rope_pos (g_rope g) \<noteq> []
                then Some (rope_dir (g_rope g), rope_pos (g_rope g)) else None)\<rparr>"

text \<open>
  \<open>next_frame\<close> from the movement loops on: movement, scoring, filtering, collisions,
  and the snapshot stored in \<open>_state\<close>.
\<close>

definition after_input :: "'m collab \<Rightarrow> 'm game \<Rightarrow> 'm game" where
  "after_input env g =
     (let g1 = collision env (drop_gone (credit_dead env (move_rocks env (move_enemies env g))))
      in g1\<lparr>g_state := Some (make_state env g1)\<rparr>)"

text \<open>
  \<open>next_frame\<close> after the step counter and the timeout test: the input, then the rest;
  the value returned is \<open>_state\<close>.
\<close>

definition frame_body :: "'m collab \<Rightarrow> 'm game \<Rightarrow> error + 'm game \<times> snapshot option" where
  "frame_body env g =
     (case update_digdug env g of
        Inl err \<Rightarrow> Inl err
      | Inr g1 \<Rightarrow> (let g2 = after_input env g1 in Inr (g2, g_state g2)))"

text \<open>
  \<open>next_frame\<close> (the sleep at its top has no effect on the state): the game after the
  call, and the value returned, \<open>None\<close> while no match is running.
\<close>

definition next_frame :: "'m collab \<Rightarrow> 'm game \<Rightarrow> error + 'm game \<times> snapshot option" where
  "next_frame env g =
     (if \<not> g_running g then Inr (g, None)
      else
        let g1 = g\<lparr>g_step := g_step g + 1\<rparr>;
            g2 = (if g_step g1 = g_timeout g1 then stop g1 else g1)
        in frame_body env g2)"

text \<open>The dictionary \<open>info()\<close> returns.\<close>

record info_rec =
  i_size :: "int \<times> int"
  i_map :: "int list list"
  i_fps :: int
  i_timeout :: int
  i_lives :: int
  i_score :: int
  i_level :: int

definition info :: "'m collab \<Rightarrow> ('m, 'z) game_core_scheme \<Rightarrow> info_rec" where
  "info env g =
     \<lparr>i_size = map_size env (g_map g), i_map = map_tiles env (g_map g), i_fps = GAME_SPEED,
      i_timeout = TIMEOUT, i_lives = LIVES, i_score = g_score g,
      i_level = map_level env (g_map g)\<rparr>"

section \<open>A concrete terrain and concrete collaborators\<close>

text \<open>
  Modelled from the spec: \<open>Map.calc_pos\<close> of mapa.py on terrain without obstacles,
  "stepping one grid unit from the current tip in direction"; rows are counted downwards.
\<close>

fun step_pos :: "pos \<Rightarrow> direction \<Rightarrow> pos" where
  "step_pos (x, y) NORTH = (x, y - 1)"
| "step_pos (x, y) EAST = (x + 1, y)"
| "step_pos (x, y) SOUTH = (x, y + 1)"
| "step_pos (x, y) WEST = (x - 1, y)"

text \<open>
  Modelled from the spec: collaborators for running the model on concrete inputs. The
  terrain is its level number, an open field with the player's spawn at (1, 1), three
  enemy spawn points and one rock seed two cells above the first of them. The player
  steps in the direction of the key and faces it; enemies stay where they are (a
  movement routine may decide so); a rock falls one row per tick down to row 31; every
  tier is worth 100 points; the vital radius is 3 cells.
\<close>

definition field :: "int collab" where
  "field =
     \<lparr>calc_pos = (\<lambda>m. step_pos),
      Map_empty = (\<lambda>sz. 0),
      Map_level = (\<lambda>level sz. level),
      map_size = (\<lambda>m. MAP_SIZE),
      map_level = (\<lambda>m. m),
      map_tiles = (\<lambda>m. []),
      ver_tiles = (\<lambda>m. 32),
      digdug_spawn = (\<lambda>m. (1, 1)),
      enemies_spawn = (\<lambda>m. [(10, 10), (20, 10), (10, 20)]),
      map_rocks = (\<lambda>m. [(10, 8)]),
      digdug_facing = EAST,
      digdug_move = (\<lambda>m k es rs d.
         (m, case k of None \<Rightarrow> d
             | Some dir \<Rightarrow> d\<lparr>d_pos := step_pos (d_pos d) dir, d_direction := dir\<rparr>)),
      enemy_move = (\<lambda>m d es rs e. e),
      rock_move = (\<lambda>m d rs r.
         if snd (rk_pos r) < 31 then r\<lparr>rk_pos := step_pos (rk_pos r) SOUTH\<rparr> else r),
      tier_points = (\<lambda>e vt. 100),
      vital = (\<lambda>p q. (fst p - fst q) * (fst p - fst q) + (snd p - snd q) * (snd p - snd q) < 9)\<rparr>"

section \<open>Runs of the game\<close>

text \<open>
  A run: each tick, the input side stores one key with \<open>keypress\<close> and the scheduler
  calls \<open>next_frame\<close>.
\<close>

fun play :: "'m collab \<Rightarrow> string list \<Rightarrow> 'm game \<Rightarrow> error + 'm game" where
  "play env [] g = Inr g"
| "play env (key # keys) g =
     (case next_frame env (keypress key g) of
        Inl err \<Rightarrow> Inl err
      | Inr (g', out) \<Rightarrow> play env keys g')"

text \<open>
  The path condition of \<open>update_digdug\<close> under which \<open>self._rope.hit(self._enemies)\<close> is
  called and returns \<open>True\<close>.
\<close>

definition hit_returns_true :: "'m collab \<Rightarrow> 'm game \<Rightarrow> bool" where
  "hit_returns_true env g =
     ((py_in (g_lastkeypress g) ''wasdAB'' \<or> g_lastkeypress g = []) \<and>
      py_isupper (g_lastkeypress g) \<and> py_in (g_lastkeypress g) ''AB'' \<and>
      fst (hit (shoot env (g_map g) (g_rope g) (d_pos (g_digdug g)) (d_direction (g_digdug g)))
             (g_enemies g)))"


text \<open>
  What the steps of a tick after the input leave alone: the rope, the configured timeout,
  the step counter, the player's name and the map; and none of them sets the running
  flag.
\<close>

definition keeps :: "'m game \<Rightarrow> 'm game \<Rightarrow> bool" where
  "keeps g g' =
     (g_rope g' = g_rope g \<and> g_timeout g' = g_timeout g \<and> g_step g' = g_step g \<and>
      g_player_name g' = g_player_name g \<and> g_map g' = g_map g \<and>
      (g_running g' \<longrightarrow> g_running g))"

text \<open>
  The cell \<open>c\<close> is clear: no enemy stands on it or has it as its spawn point, and no
  rock lies on it.
\<close>

definition clear_of :: "pos \<Rightarrow> 'm game \<Rightarrow> bool" where
  "clear_of c g =
     (c \<notin> e_pos ` set (g_enemies g) \<and> c \<notin> e_spawn ` set (g_enemies g) \<and>
      c \<notin> rk_pos ` set (g_rocks g))"

text \<open>
  The camper eviction of \<open>kill_digdug\<close> on one enemy: sent to its spawn point when it
  passes the camper test for the cell \<open>c\<close>.
\<close>

definition evicted :: "'m collab \<Rightarrow> pos \<Rightarrow> enemy \<Rightarrow> enemy" where
  "evicted env c e = (if vital env c (e_pos e) then enemy_respawn e else e)"

text \<open>An enemy after the rocks \<open>rs\<close> were compared with it: killed by a rock if one is on its cell.\<close>

definition crushed :: "rock list \<Rightarrow> enemy \<Rightarrow> enemy" where
  "crushed rs e = (if e_pos e \<in> rk_pos ` set rs then enemy_kill True e else e)"

text \<open>The number of pairs of a rock of \<open>rs\<close> and an enemy of \<open>es\<close> on one cell.\<close>

definition crush_count :: "rock list \<Rightarrow> enemy list \<Rightarrow> nat" where
  "crush_count rs es = sum_list (map (\<lambda>r. length (filter (\<lambda>e. rk_pos r = e_pos e) es)) rs)"

text \<open>
  The player's spawn cell is safe: no enemy has it as its spawn point, no rock lies on
  it, and if an enemy stands on it, the camper test holds at distance zero.
\<close>

definition spawn_safe :: "'m collab \<Rightarrow> 'm game \<Rightarrow> bool" where
  "spawn_safe env g =
     (d_spawn (g_digdug g) \<notin> e_spawn ` set (g_enemies g) \<and>
      d_spawn (g_digdug g) \<notin> rk_pos ` set (g_rocks g) \<and>
      (d_spawn (g_digdug g) \<in> e_pos ` set (g_enemies g)
       \<longrightarrow> vital env (d_spawn (g_digdug g)) (d_spawn (g_digdug g))))"

text \<open>
  The index of the first enemy of the list on the player's cell, the length of the list
  when there is none; likewise for the rocks.
\<close>

definition first_enemy :: "'m game \<Rightarrow> nat" where
  "first_enemy g = length (takeWhile (\<lambda>e. e_pos e \<noteq> d_pos (g_digdug g)) (g_enemies g))"

definition first_rock :: "'m game \<Rightarrow> nat" where
  "first_rock g = length (takeWhile (\<lambda>r. rk_pos r \<noteq> d_pos (g_digdug g)) (g_rocks g))"

text \<open>The match \<open>Game(level=1).start("p1")\<close> on the concrete terrain.\<close>

definition match0 :: "int game" where
  "match0 =
     \<lparr>g_initial_level = 1, g_running = True, g_timeout = 3000, g_score = 0, g_step = 0,
      g_total_steps = 0, g_state = None, g_initial_lives = 3, g_map = 1,
      g_enemies = [Enemy Fygar 0 (10, 10), Enemy Fygar 1 (20, 10), Enemy Pooka 2 (10, 20)],
      g_rope = \<lparr>rope_pos = [], rope_dir = None, rope_map = Some 0\<rparr>,
      g_player_name = ''p1'',
      g_digdug = \<lparr>d_pos = (1, 1), d_lives = 3, d_direction = EAST, d_spawn = (1, 1)\<rparr>,
      g_lastkeypress = [], g_rocks = [Rock 0 (10, 8)]\<rparr>"

text \<open>The same match with the player one cell west of the first enemy, facing it, key \<open>A\<close>.\<close>

definition aim :: "int game" where
  "aim =
     match0\<lparr>g_digdug := \<lparr>d_pos = (9, 10), d_lives = 3, d_direction = EAST, d_spawn = (1, 1)\<rparr>,
            g_lastkeypress := ''A''\<rparr>"

text \<open>
  The same match with the player on its last life at (7, 7), and the first two enemies
  having walked onto that cell.
\<close>

definition crowded :: "int game" where
  "crowded =
     match0\<lparr>g_digdug := \<lparr>d_pos = (7, 7), d_lives = 1, d_direction = EAST, d_spawn = (1, 1)\<rparr>,
            g_enemies := [(Enemy Fygar 0 (10, 10))\<lparr>e_pos := (7, 7)\<rparr>,
                          (Enemy Fygar 1 (20, 10))\<lparr>e_pos := (7, 7)\<rparr>,
                          Enemy Pooka 2 (10, 20)]\<rparr>"

text \<open>The same match once every enemy is gone.\<close>

definition cleared :: "int game" where
  "cleared = match0\<lparr>g_enemies := []\<rparr>"

text \<open>\<open>crowded\<close> with three lives.\<close>

definition crowded3 :: "int game" where
  "crowded3 = crowded\<lparr>g_digdug := (g_digdug crowded)\<lparr>d_lives := 3\<rparr>\<rparr>"

text \<open>The match \<open>match0\<close> with the player, on two lives, on the cell of the rock.\<close>

definition on_rock :: "int game" where
  "on_rock =
     match0\<lparr>g_digdug := \<lparr>d_pos = (10, 8), d_lives = 2, d_direction = EAST, d_spawn = (1, 1)\<rparr>\<rparr>"

text \<open>
  The match \<open>match0\<close> with the first two enemies on the player's cell, which is its
  spawn cell.
\<close>

definition at_home :: "int game" where
  "at_home =
     match0\<lparr>g_enemies := [(Enemy Fygar 0 (10, 10))\<lparr>e_pos := (1, 1)\<rparr>,
                          (Enemy Fygar 1 (20, 10))\<lparr>e_pos := (1, 1)\<rparr>,
                          Enemy Pooka 2 (10, 20)]\<rparr>"

section \<open>The rope\<close>

lemma shoot_length: "int (length (rope_pos (shoot env m r p d))) \<le> MAX_LEN_ROPE"
  by (simp add: shoot_def Let_def MAX_LEN_ROPE_def)

text \<open>A locked direction other than \<open>NORTH\<close> is true, and a different request resets the rope.\<close>

lemma shoot_turn_resets:
  "rope_dir r = Some d' \<Longrightarrow> d' \<noteq> NORTH \<Longrightarrow> d \<noteq> d' \<Longrightarrow>
   shoot env m r p d = r\<lparr>rope_pos := [], rope_dir := None\<rparr>"
  by (cases d') (simp_all add: shoot_def)

text \<open>
  C4, at the input where the code departs from the claim. The rope holds one cell and is
  locked to \<open>NORTH\<close>, whose integer value 0 makes \<open>self._dir\<close> false in
  \<open>if self._dir and direction != self._dir\<close>. A call for \<open>EAST\<close> is not taken as a change
  of direction: the rope is not reset, one cell is appended and the lock moves to \<open>EAST\<close>.
\<close>

theorem shoot_north_lock_not_reset:
  "shoot field 1 \<lparr>rope_pos = [(5, 4)], rope_dir = Some NORTH, rope_map = None\<rparr> (5, 5) EAST
   = \<lparr>rope_pos = [(5, 4), (6, 4)], rope_dir = Some EAST, rope_map = None\<rparr>"
  by (simp add: shoot_def new_pos_def rope_terrain_def field_def MAX_LEN_ROPE_def)

text \<open>
  C10. When a call of \<open>shoot\<close> gets as far as the append and the list then holds more
  than \<open>MAX_LEN_ROPE\<close> cells, the result has no cells and keeps the requested direction
  as its lock. The two other resets, on a change of direction and on a cell that is
  already in the rope, clear the cells and the lock.
\<close>

theorem shoot_overflow_keeps_lock:
  "(\<not> (truthy (rope_dir r) \<and> Some d \<noteq> rope_dir r) \<and>
    new_pos env m r p d \<notin> set (rope_pos r) \<and> int (length (rope_pos r)) \<ge> MAX_LEN_ROPE
    \<longrightarrow> shoot env m r p d = r\<lparr>rope_pos := [], rope_dir := Some d\<rparr>) \<and>
   (truthy (rope_dir r) \<and> Some d \<noteq> rope_dir r
    \<longrightarrow> shoot env m r p d = r\<lparr>rope_pos := [], rope_dir := None\<rparr>) \<and>
   (\<not> (truthy (rope_dir r) \<and> Some d \<noteq> rope_dir r) \<and> new_pos env m r p d \<in> set (rope_pos r)
    \<longrightarrow> shoot env m r p d = r\<lparr>rope_pos := [], rope_dir := None\<rparr>)"
  by (simp add: shoot_def Let_def MAX_LEN_ROPE_def)

theorem shoot_overflow_keeps_lock_witness:
  "shoot field 1 \<lparr>rope_pos = [(2, 1), (3, 1), (4, 1)], rope_dir = Some EAST, rope_map = None\<rparr>
     (1, 1) EAST
   = \<lparr>rope_pos = [], rope_dir = Some EAST, rope_map = None\<rparr> \<and>
   shoot field 1 \<lparr>rope_pos = [(2, 1)], rope_dir = Some EAST, rope_map = None\<rparr> (1, 1) SOUTH
   = \<lparr>rope_pos = [], rope_dir = None, rope_map = None\<rparr> \<and>
   shoot (field\<lparr>calc_pos := (\<lambda>m c d. c)\<rparr>) 1
     \<lparr>rope_pos = [(2, 1)], rope_dir = Some EAST, rope_map = None\<rparr> (1, 1) EAST
   = \<lparr>rope_pos = [], rope_dir = None, rope_map = None\<rparr>"
  using
    shoot_overflow_keeps_lock [of "\<lparr>rope_pos = [(2, 1), (3, 1), (4, 1)], rope_dir = Some EAST,
      rope_map = None\<rparr>" EAST field 1 "(1, 1)"]
    shoot_overflow_keeps_lock [of "\<lparr>rope_pos = [(2, 1)], rope_dir = Some EAST,
      rope_map = None\<rparr>" SOUTH field 1 "(1, 1)"]
    shoot_overflow_keeps_lock [of "\<lparr>rope_pos = [(2, 1)], rope_dir = Some EAST,
      rope_map = None\<rparr>" EAST "field\<lparr>calc_pos := (\<lambda>m c d. c)\<rparr>" 1 "(1, 1)"]
  by (simp add: new_pos_def rope_terrain_def field_def MAX_LEN_ROPE_def)

section \<open>Steps of a tick: what they leave alone\<close>

lemma fold_inv: "(\<And>x s. x \<in> set xs \<Longrightarrow> P s \<Longrightarrow> P (f x s)) \<Longrightarrow> P s \<Longrightarrow> P (fold f xs s)"
  by (induction xs arbitrary: s) auto

lemma keeps_refl: "keeps g g"
  by (simp add: keeps_def)

lemma keeps_trans: "keeps g h \<Longrightarrow> keeps h k \<Longrightarrow> keeps g k"
  by (simp add: keeps_def)

lemma keeps_fold: "(\<And>x s. keeps s (f x s)) \<Longrightarrow> keeps g (fold f xs g)"
  by (rule fold_inv [where P = "keeps g"]) (auto intro: keeps_trans keeps_refl)

lemma keeps_kill: "keeps g (kill_digdug env g)"
  by (simp add: keeps_def kill_digdug_def Let_def stop_def)

lemma keeps_collide_enemy: "keeps g (collide_enemy env i g)"
  using keeps_kill [of g env] by (simp add: keeps_def collide_enemy_def Let_def)

lemma keeps_collide_rock: "keeps g (collide_rock env r g)"
  using keeps_kill [of g env] by (simp add: keeps_def collide_rock_def Let_def split: prod.splits)

lemma keeps_collision: "keeps g (collision env g)"
  unfolding collision_def Let_def
  by (rule keeps_trans [OF keeps_fold keeps_fold]) (rule keeps_collide_enemy, rule keeps_collide_rock)

lemma keeps_move_enemies: "keeps g (move_enemies env g)"
  unfolding move_enemies_def by (rule keeps_fold) (simp add: keeps_def move_enemy_def)

lemma keeps_move_rocks: "keeps g (move_rocks env g)"
  unfolding move_rocks_def by (rule keeps_fold) (simp add: keeps_def move_rock_def)

lemma keeps_credit_dead: "keeps g (credit_dead env g)"
  by (simp add: keeps_def credit_dead_def)

lemma keeps_drop_gone: "keeps g (drop_gone g)"
  by (simp add: keeps_def drop_gone_def)


lemma keeps_after_input: "keeps g (after_input env g)"
proof -
  let ?a = "move_enemies env g"
  let ?b = "move_rocks env ?a"
  let ?c = "credit_dead env ?b"
  let ?d = "drop_gone ?c"
  let ?e = "collision env ?d"
  have "keeps g ?a" by (rule keeps_move_enemies)
  moreover have "keeps ?a ?b" by (rule keeps_move_rocks)
  moreover have "keeps ?b ?c" by (rule keeps_credit_dead)
  moreover have "keeps ?c ?d" by (rule keeps_drop_gone)
  moreover have "keeps ?d ?e" by (rule keeps_collision)
  ultimately have "keeps g ?e" by (simp add: keeps_def)
  then show ?thesis by (simp add: after_input_def Let_def keeps_def)
qed

lemma update_digdug_eq: "update_digdug env g = Inr ((try_key env g)\<lparr>g_lastkeypress := []\<rparr>)"
  by (simp add: update_digdug_def Let_def)

lemma try_key_frame:
  "g_timeout (try_key env g) = g_timeout g \<and> g_step (try_key env g) = g_step g \<and>
   g_running (try_key env g) = g_running g \<and>
   g_player_name (try_key env g) = g_player_name g \<and>
   g_total_steps (try_key env g) = g_total_steps g"
  by (simp add: try_key_def Let_def split: prod.splits del: py_in.simps)

lemma try_key_rope:
  "int (length (rope_pos (g_rope g))) \<le> MAX_LEN_ROPE \<Longrightarrow>
   int (length (rope_pos (g_rope (try_key env g)))) \<le> MAX_LEN_ROPE"
  using shoot_length [of env "g_map g" "g_rope g" "d_pos (g_digdug g)" "d_direction (g_digdug g)"]
  by (simp add: try_key_def Let_def Rope_def MAX_LEN_ROPE_def split: prod.splits
      del: py_in.simps)

lemma try_key_hit:
  "hit_returns_true env g \<Longrightarrow> g_rope (try_key env g) = Rope"
  by (auto simp add: try_key_def hit_returns_true_def Let_def split: prod.splits
      simp del: py_in.simps)


















lemma after_input_state:
  "g_state (after_input env g) = Some (make_state env (after_input env g))"
  by (simp add: after_input_def Let_def make_state_def)

lemma frame_body_eq:
  "frame_body env g =
     Inr (after_input env ((try_key env g)\<lparr>g_lastkeypress := []\<rparr>),
          Some (make_state env (after_input env ((try_key env g)\<lparr>g_lastkeypress := []\<rparr>))))"
  by (simp add: frame_body_def update_digdug_eq Let_def after_input_state)

section \<open>A whole tick\<close>

lemma next_frame_running:
  "g_running g \<Longrightarrow>
   next_frame env g =
     frame_body env (if g_step g + 1 = g_timeout g then stop (g\<lparr>g_step := g_step g + 1\<rparr>)
                     else g\<lparr>g_step := g_step g + 1\<rparr>)"
  by (simp add: next_frame_def Let_def stop_def)

lemma next_frame_total: "\<exists>g' out. next_frame env g = Inr (g', out)"
  by (simp add: next_frame_def Let_def frame_body_eq)

lemma frame_body_keeps:
  assumes "frame_body env g = Inr (g', out)"
  shows "g_timeout g' = g_timeout g \<and> g_step g' = g_step g \<and> (g_running g' \<longrightarrow> g_running g) \<and>
         g_rope g' = g_rope (try_key env g)"
proof -
  let ?i = "(try_key env g)\<lparr>g_lastkeypress := []\<rparr>"
  have g': "g' = after_input env ?i"
    using assms by (simp add: frame_body_eq)
  have "keeps ?i g'"
    unfolding g' by (rule keeps_after_input)
  then show ?thesis
    using try_key_frame [of env g] by (simp add: keeps_def)
qed

lemma next_frame_timeout:
  assumes "next_frame env g = Inr (g', out)"
  shows "g_timeout g' = g_timeout g"
proof (cases "g_running g")
  case False
  then show ?thesis using assms by (simp add: next_frame_def)
next
  case True
  then show ?thesis
    using assms frame_body_keeps [of env _ g' out]
    by (auto simp add: next_frame_running stop_def split: if_splits)
qed

lemma next_frame_rope:
  assumes "next_frame env g = Inr (g', out)"
    and "int (length (rope_pos (g_rope g))) \<le> MAX_LEN_ROPE"
  shows "int (length (rope_pos (g_rope g'))) \<le> MAX_LEN_ROPE"
proof (cases "g_running g")
  case False
  then show ?thesis using assms by (simp add: next_frame_def)
next
  case True
  let ?g = "if g_step g + 1 = g_timeout g then stop (g\<lparr>g_step := g_step g + 1\<rparr>)
            else g\<lparr>g_step := g_step g + 1\<rparr>"
  have fb: "frame_body env ?g = Inr (g', out)"
    using assms(1) True by (simp only: next_frame_running)
  have "g_rope ?g = g_rope g" by (simp add: stop_def)
  then have "int (length (rope_pos (g_rope (try_key env ?g)))) \<le> MAX_LEN_ROPE"
    using assms(2) try_key_rope [of ?g env] by simp
  then show ?thesis
    using frame_body_keeps [OF fb] by simp
qed

lemma play_total_rope:
  "\<exists>g'. play env keys g = Inr g' \<and> g_timeout g' = g_timeout g \<and>
     (int (length (rope_pos (g_rope g))) \<le> MAX_LEN_ROPE \<longrightarrow>
      int (length (rope_pos (g_rope g'))) \<le> MAX_LEN_ROPE)"
proof (induction keys arbitrary: g)
  case Nil
  show ?case by simp
next
  case (Cons key keys)
  obtain g1 out where nf: "next_frame env (keypress key g) = Inr (g1, out)"
    using next_frame_total by blast
  have t: "g_timeout g1 = g_timeout g"
    using next_frame_timeout [OF nf] by (simp add: keypress_def)
  have r: "int (length (rope_pos (g_rope g))) \<le> MAX_LEN_ROPE \<Longrightarrow>
           int (length (rope_pos (g_rope g1))) \<le> MAX_LEN_ROPE"
    using next_frame_rope [OF nf] by (simp add: keypress_def)
  from Cons.IH [of g1] obtain g' where
    "play env keys g1 = Inr g'" "g_timeout g' = g_timeout g1"
    "int (length (rope_pos (g_rope g1))) \<le> MAX_LEN_ROPE \<longrightarrow>
     int (length (rope_pos (g_rope g'))) \<le> MAX_LEN_ROPE"
    by blast
  then show ?case using nf t r by auto
qed

lemma hit_tick:
  assumes "g_running g" and "hit_returns_true env g"
  shows "\<exists>g' s. next_frame env g = Inr (g', Some s) \<and> rope_pos (g_rope g') = [] \<and> s_rope s = None"
proof -
  let ?g = "if g_step g + 1 = g_timeout g then stop (g\<lparr>g_step := g_step g + 1\<rparr>)
            else g\<lparr>g_step := g_step g + 1\<rparr>"
  let ?i = "(try_key env ?g)\<lparr>g_lastkeypress := []\<rparr>"
  let ?g' = "after_input env ?i"
  have nf: "next_frame env g = Inr (?g', Some (make_state env ?g'))"
    using assms(1) by (simp only: next_frame_running frame_body_eq)
  have "hit_returns_true env ?g"
    using assms(2) by (simp add: hit_returns_true_def stop_def)
  then have "g_rope (try_key env ?g) = Rope"
    by (rule try_key_hit)
  moreover have "g_rope ?g' = g_rope (try_key env ?g)"
    using frame_body_keeps [of env ?g ?g' "Some (make_state env ?g')"]
    by (simp only: frame_body_eq)
  ultimately have "g_rope ?g' = Rope" by simp
  then have "rope_pos (g_rope ?g') = [] \<and> s_rope (make_state env ?g') = None"
    by (simp add: Rope_def make_state_def)
  with nf show ?thesis by blast
qed

text \<open>
  C7. Whatever the rope, the terrain and the request, the rope that \<open>shoot\<close> leaves has
  at most \<open>MAX_LEN_ROPE\<close> = 3 cells. A run over any list of keys returns, and a rope of
  at most 3 cells at its start has at most 3 cells at its end. On a tick of a running
  match in which \<open>hit\<close> is called and returns \<open>True\<close>, \<open>next_frame\<close> returns a snapshot,
  the rope of the game after the tick is empty and the snapshot has no rope entry.
\<close>

theorem rope_bounded_and_cleared:
  "int (length (rope_pos (shoot env m r p d))) \<le> MAX_LEN_ROPE \<and>
   (\<exists>g'. play env keys g = Inr g' \<and>
      (int (length (rope_pos (g_rope g))) \<le> MAX_LEN_ROPE \<longrightarrow>
       int (length (rope_pos (g_rope g'))) \<le> MAX_LEN_ROPE)) \<and>
   (g_running g \<and> hit_returns_true env g \<longrightarrow>
      (\<exists>g' s. next_frame env g = Inr (g', Some s) \<and> rope_pos (g_rope g') = [] \<and>
         s_rope s = None))"
  using shoot_length [of env m r p d] play_total_rope [of env keys g] hit_tick [of g env]
  by blast

lemma aim_hit: "g_running aim \<and> hit_returns_true field aim"
  by (simp add: aim_def match0_def hit_returns_true_def py_isupper_def is_upper_def is_lower_def
      shoot_def new_pos_def rope_terrain_def field_def MAX_LEN_ROPE_def Enemy_def)

theorem rope_bounded_and_cleared_witness:
  "int (length (rope_pos (shoot field 1 Rope (1, 1) EAST))) \<le> MAX_LEN_ROPE \<and>
   (\<exists>g'. play field [''A'', ''A'', ''d''] match0 = Inr g' \<and>
      int (length (rope_pos (g_rope g'))) \<le> MAX_LEN_ROPE) \<and>
   (\<exists>g' s. next_frame field aim = Inr (g', Some s) \<and> rope_pos (g_rope g') = [] \<and>
      s_rope s = None)"
proof -
  have "int (length (rope_pos (g_rope match0))) \<le> MAX_LEN_ROPE"
    by (simp add: match0_def MAX_LEN_ROPE_def)
  with aim_hit show ?thesis
    using rope_bounded_and_cleared [of field 1 Rope "(1, 1)" EAST "[''A'', ''A'', ''d'']" match0]
      rope_bounded_and_cleared [of field 1 Rope "(1, 1)" EAST "[]" aim]
    by blast
qed

lemma start_spawn:
  "start env name g0 = Inr g \<Longrightarrow>
   d_spawn (g_digdug g) = digdug_spawn env (g_map g0) \<and> d_lives (g_digdug g) = g_initial_lives g0
   \<and> g_timeout g = g_timeout g0 \<and> g_running g"
  by (auto simp add: start_def next_level_def Let_def DigDug_def digdug_respawn_def
      split: option.splits)

text \<open>
  C6. \<open>kill_digdug\<close> on a player with exactly one life leaves 0 lives and a match that is
  not running. On a player with more than one life it leaves the running flag as it was,
  takes exactly one life and puts the player on its spawn point, the terrain spawn that
  \<open>start\<close> constructed it with (lemma \<open>start_spawn\<close>).
\<close>

theorem kill_digdug_policy:
  "(d_lives (g_digdug g) = 1 \<longrightarrow>
      d_lives (g_digdug (kill_digdug env g)) = 0 \<and> \<not> g_running (kill_digdug env g)) \<and>
   (d_lives (g_digdug g) > 1 \<longrightarrow>
      g_running (kill_digdug env g) = g_running g \<and>
      d_lives (g_digdug (kill_digdug env g)) = d_lives (g_digdug g) - 1 \<and>
      d_pos (g_digdug (kill_digdug env g)) = d_spawn (g_digdug g))"
  by (simp add: kill_digdug_def Let_def digdug_kill_def digdug_respawn_def stop_def)

theorem kill_digdug_policy_witness:
  "d_lives (g_digdug (kill_digdug field crowded)) = 0 \<and> \<not> g_running (kill_digdug field crowded) \<and>
   g_running (kill_digdug field aim) \<and> d_lives (g_digdug (kill_digdug field aim)) = 2 \<and>
   d_pos (g_digdug (kill_digdug field aim)) = (1, 1)"
  using kill_digdug_policy [of crowded field] kill_digdug_policy [of aim field]
  by (simp add: crowded_def aim_def match0_def)




section \<open>Runs on the concrete terrain\<close>

text \<open>\<open>match0\<close> is what \<open>start\<close> makes of a game constructed with the default arguments.\<close>

lemma start_match0: "start field ''p1'' (Game field 1 LIVES TIMEOUT MAP_SIZE) = Inr match0"
  by code_simp

text \<open>
  C1, at the input where the code departs from the claim. In the match \<open>match0\<close> a rock
  falls from (10, 8) onto the enemy standing on (10, 10); no key is pressed. On the
  second tick \<open>collision\<close> finds the rock on the enemy's cell, kills the enemy and adds
  its 1000 points; the enemy stays in the list, not alive. On the third tick the score
  line of \<open>next_frame\<close> adds the points of every enemy that is not alive, so the same
  death is credited again: 2000 points for one enemy, which the filter then removes.
\<close>

theorem crush_credited_twice:
  "(case play field [[], []] match0 of
      Inl err \<Rightarrow> False
    | Inr g \<Rightarrow> g_score g = 1000 \<and> map e_alive (g_enemies g) = [False, True, True]) \<and>
   (case play field [[], [], []] match0 of
      Inl err \<Rightarrow> False
    | Inr g \<Rightarrow> g_score g = 2000 \<and> map e_id (g_enemies g) = [1, 2])"
  by code_simp

text \<open>
  C2, at the input where the code departs from the claim. Same match: after the first
  tick all three enemies are alive and the rock is one cell above the first. After the
  second tick the match is running and the enemy list, and the snapshot's list with it,
  still holds the enemy that \<open>collision\<close> killed after the filter had run.
\<close>

theorem dead_enemy_after_tick:
  "(case play field [[]] match0 of
      Inl err \<Rightarrow> False
    | Inr g \<Rightarrow> map rk_pos (g_rocks g) = [(10, 9)] \<and> map e_pos (g_enemies g) = [(10, 10), (20, 10), (10, 20)]
        \<and> map e_alive (g_enemies g) = [True, True, True]) \<and>
   (case play field [[], []] match0 of
      Inl err \<Rightarrow> False
    | Inr g \<Rightarrow> g_running g \<and> map e_alive (g_enemies g) = [False, True, True] \<and>
        map (\<lambda>(n, i, p). i) (case g_state g of None \<Rightarrow> [] | Some s \<Rightarrow> s_enemies s) = [0, 1, 2])"
  by code_simp

text \<open>
  C3, at the input where the code departs from the claim. With no enemy left, a tick
  leaves the match running on level 1 with no enemy: the guard \<open>len(self._enemies) < 0\<close>
  is never true and \<open>next_level\<close> is not called. Were it called for level 4, the lookup
  in \<open>LEVEL_ENEMIES\<close> would raise \<open>KeyError\<close>: the win check is inside the docstring.
\<close>

theorem empty_level_not_advanced:
  "(case next_frame field cleared of
      Inl err \<Rightarrow> False
    | Inr (g, out) \<Rightarrow> g_running g \<and> g_enemies g = [] \<and> map_level field (g_map g) = 1) \<and>
   next_level field 4 cleared = Inl KeyError"
  by code_simp

text \<open>
  C5 as stated fails on the last life. The player has one life and shares its cell with
  the first two enemies. The first enemy costs the life and stops the match; the player
  is not moved, so the second enemy collides as well: the life count goes to -1, the
  second enemy is sent to its spawn point too, and \<open>stop\<close> adds the step counter to the
  lifetime total twice.
\<close>

theorem last_life_two_collisions:
  "d_lives (g_digdug (collision field crowded)) = - 1 \<and>
   map e_pos (g_enemies (collision field crowded)) = [(10, 10), (20, 10), (10, 20)] \<and>
   g_total_steps (collision field (crowded\<lparr>g_step := 5\<rparr>)) = 10"
  by code_simp

section \<open>The match information\<close>

lemma play_timeout: "play env keys g = Inr g' \<Longrightarrow> g_timeout g' = g_timeout g"
  using play_total_rope [of env keys g] by auto

text \<open>
  C9. For a game constructed with any level, life count, timeout and size: \<open>info\<close> on the
  constructed object reports the timeout 3000 and 3 lives, the module constants. Once the
  match is started (the player then holds the configured life count) and has run over
  any keys, \<open>info\<close> still reports 3000 and 3, while the snapshot of the next tick reports
  the configured timeout; the two differ whenever the configured timeout is not 3000.
\<close>

theorem info_reports_module_constants:
  assumes "start env name (Game env level lives timeout sz) = Inr g0"
    and "play env keys g0 = Inr g"
    and "g_running g"
  shows "i_timeout (info env (Game env level lives timeout sz)) = 3000 \<and>
         i_lives (info env (Game env level lives timeout sz)) = 3 \<and>
         d_lives (g_digdug g0) = lives \<and>
         i_timeout (info env g) = 3000 \<and> i_lives (info env g) = 3 \<and>
         (\<exists>g' s. next_frame env g = Inr (g', Some s) \<and> s_timeout s = timeout \<and>
            i_timeout (info env g') = 3000 \<and> i_lives (info env g') = 3 \<and>
            (timeout \<noteq> 3000 \<longrightarrow> s_timeout s \<noteq> i_timeout (info env g')))"
proof -
  have g0: "g_timeout g0 = timeout" "d_lives (g_digdug g0) = lives"
    using start_spawn [OF assms(1)] by (simp_all add: Game_def)
  then have t: "g_timeout g = timeout"
    using play_timeout [OF assms(2)] by simp
  let ?g = "if g_step g + 1 = g_timeout g then stop (g\<lparr>g_step := g_step g + 1\<rparr>)
            else g\<lparr>g_step := g_step g + 1\<rparr>"
  let ?g' = "after_input env ((try_key env ?g)\<lparr>g_lastkeypress := []\<rparr>)"
  have nf: "next_frame env g = Inr (?g', Some (make_state env ?g'))"
    using assms(3) by (simp only: next_frame_running frame_body_eq)
  have "g_timeout ?g' = timeout"
    using next_frame_timeout [OF nf] t by simp
  then have st: "s_timeout (make_state env ?g') = timeout"
    by (simp add: make_state_def)
  have i1: "i_timeout (info env (Game env level lives timeout sz)) = 3000"
    and i2: "i_lives (info env (Game env level lives timeout sz)) = 3"
    and i3: "i_timeout (info env g) = 3000" and i4: "i_lives (info env g) = 3"
    and i5: "i_timeout (info env ?g') = 3000" and i6: "i_lives (info env ?g') = 3"
    by (simp_all add: info_def TIMEOUT_def LIVES_def)
  from nf st i5 i6 have
    "\<exists>g' s. next_frame env g = Inr (g', Some s) \<and> s_timeout s = timeout \<and>
       i_timeout (info env g') = 3000 \<and> i_lives (info env g') = 3 \<and>
       (timeout \<noteq> 3000 \<longrightarrow> s_timeout s \<noteq> i_timeout (info env g'))"
    by (intro exI [of _ ?g'] exI [of _ "make_state env ?g'"]) simp
  with g0(2) i1 i2 i3 i4 show ?thesis by simp
qed

theorem info_reports_module_constants_witness:
  "i_timeout (info field (Game field 1 1 50 MAP_SIZE)) = 3000 \<and>
   i_lives (info field (Game field 1 1 50 MAP_SIZE)) = 3 \<and>
   (\<exists>g0 g' s. start field ''p1'' (Game field 1 1 50 MAP_SIZE) = Inr g0 \<and>
      d_lives (g_digdug g0) = 1 \<and>
      next_frame field g0 = Inr (g', Some s) \<and> s_timeout s = 50 \<and>
      i_timeout (info field g') = 3000 \<and> i_lives (info field g') = 3)"
proof -
  let ?g0 = "match0\<lparr>g_timeout := 50, g_initial_lives := 1,
       g_digdug := \<lparr>d_pos = (1, 1), d_lives = 1, d_direction = EAST, d_spawn = (1, 1)\<rparr>\<rparr>"
  have a: "start field ''p1'' (Game field 1 1 50 MAP_SIZE) = Inr ?g0"
    by code_simp
  have b: "play field [] ?g0 = Inr ?g0" by simp
  have c: "g_running ?g0" by (simp add: match0_def)
  from info_reports_module_constants [OF a b c] a show ?thesis by blast
qed

section \<open>Collisions of the player\<close>

lemma clear_update:
  assumes "clear_of c h"
  shows "clear_of c (h\<lparr>g_enemies := (g_enemies h)[i := enemy_respawn (g_enemies h ! i)]\<rparr>)"
proof (cases "i < length (g_enemies h)")
  case True
  then have "g_enemies h ! i \<in> set (g_enemies h)" by simp
  then have "e_spawn (g_enemies h ! i) \<noteq> c"
    using assms by (auto simp add: clear_of_def)
  moreover have "set ((g_enemies h)[i := enemy_respawn (g_enemies h ! i)])
      \<subseteq> insert (enemy_respawn (g_enemies h ! i)) (set (g_enemies h))"
    by (rule set_update_subset_insert)
  ultimately show ?thesis
    using assms by (auto simp add: clear_of_def enemy_respawn_def)
next
  case False
  then have "(g_enemies h)[i := enemy_respawn (g_enemies h ! i)] = g_enemies h"
    by (simp add: list_update_beyond)
  then show ?thesis using assms by (simp add: clear_of_def)
qed

lemma collide_enemy_miss:
  "e_pos (g_enemies h ! i) \<noteq> d_pos (g_digdug h) \<Longrightarrow> collide_enemy env i h = h"
  by (simp add: collide_enemy_def)

lemma clear_nth:
  "clear_of c h \<Longrightarrow> i < length (g_enemies h) \<Longrightarrow> e_pos (g_enemies h ! i) \<noteq> c"
  by (auto simp add: clear_of_def)

lemma crush_eq:
  "crush env vt r es sc =
     (map (crushed [r]) es,
      sc + ROCK_KILL_POINTS * int (length (filter (\<lambda>e. rk_pos r = e_pos e) es)))"
  by (induction es arbitrary: sc)
    (auto simp add: crushed_def enemy_points_def enemy_kill_def Let_def algebra_simps)

lemma crushed_pos [simp]: "e_pos (crushed rs e) = e_pos e" "e_spawn (crushed rs e) = e_spawn e"
  by (simp_all add: crushed_def enemy_kill_def)

lemma crushed_Cons: "crushed rs (crushed [r] e) = crushed (r # rs) e"
  by (simp add: crushed_def enemy_kill_def)

lemma crushed_Nil: "crushed [] e = e"
  by (simp add: crushed_def)

lemma crush_count_by_pos:
  "crush_count rs es = sum_list (map (\<lambda>r. length (filter (\<lambda>p. rk_pos r = p) (map e_pos es))) rs)"
  by (simp add: crush_count_def filter_map comp_def)

lemma crush_count_cong: "map e_pos es' = map e_pos es \<Longrightarrow> crush_count rs es' = crush_count rs es"
  by (simp add: crush_count_by_pos)

lemma crush_count_Cons:
  "crush_count (r # rs) es = length (filter (\<lambda>e. rk_pos r = e_pos e) es) + crush_count rs es"
  by (simp add: crush_count_def)

lemma collide_rock_miss_eq:
  "rk_pos r \<noteq> d_pos (g_digdug h) \<Longrightarrow>
   collide_rock env r h =
     h\<lparr>g_enemies := map (crushed [r]) (g_enemies h),
       g_score := g_score h + ROCK_KILL_POINTS * int (crush_count [r] (g_enemies h))\<rparr>"
  by (simp add: collide_rock_def crush_eq crush_count_def)

lemma rocks_only:
  "d_pos (g_digdug h) \<notin> rk_pos ` set rs \<Longrightarrow>
   fold (collide_rock env) rs h =
     h\<lparr>g_enemies := map (crushed rs) (g_enemies h),
       g_score := g_score h + ROCK_KILL_POINTS * int (crush_count rs (g_enemies h))\<rparr>"
proof (induction rs arbitrary: h)
  case Nil
  show ?case by (simp add: crushed_Nil crush_count_def)
next
  case (Cons r rs)
  let ?h = "h\<lparr>g_enemies := map (crushed [r]) (g_enemies h),
       g_score := g_score h + ROCK_KILL_POINTS * int (crush_count [r] (g_enemies h))\<rparr>"
  have miss: "rk_pos r \<noteq> d_pos (g_digdug h)"
    using Cons.prems by auto
  have step: "collide_rock env r h = ?h"
    using miss by (rule collide_rock_miss_eq)
  have "d_pos (g_digdug ?h) \<notin> rk_pos ` set rs"
    using Cons.prems by simp
  then have "fold (collide_rock env) rs ?h =
     ?h\<lparr>g_enemies := map (crushed rs) (g_enemies ?h),
       g_score := g_score ?h + ROCK_KILL_POINTS * int (crush_count rs (g_enemies ?h))\<rparr>"
    by (rule Cons.IH)
  moreover have "crush_count rs (map (crushed [r]) (g_enemies h)) = crush_count rs (g_enemies h)"
    by (rule crush_count_cong) simp
  ultimately show ?case
    by (simp add: step crushed_Cons comp_def crush_count_Cons crush_count_def algebra_simps)
qed

lemma kill_digdug_evicts:
  "d_lives (g_digdug h) > 1 \<Longrightarrow>
   kill_digdug env h =
     h\<lparr>g_digdug := digdug_respawn (digdug_kill (g_digdug h)),
       g_enemies := map (evicted env (d_spawn (g_digdug h))) (g_enemies h)\<rparr>"
  by (simp add: kill_digdug_def Let_def digdug_kill_def digdug_respawn_def evicted_def)

lemma evicted_simps [simp]:
  "e_spawn (evicted env c e) = e_spawn e"
  "enemy_respawn (evicted env c e) = enemy_respawn e"
  "e_pos (evicted env c (crushed rs e)) = e_pos (evicted env c e)"
  by (simp_all add: evicted_def enemy_respawn_def crushed_def enemy_kill_def)

lemma kill_clears:
  assumes "d_lives (g_digdug h) > 1" and "spawn_safe env h"
  shows "clear_of (d_spawn (g_digdug h)) (kill_digdug env h)"
proof -
  let ?s = "d_spawn (g_digdug h)"
  have sp: "e_spawn e \<noteq> ?s" if "e \<in> set (g_enemies h)" for e
    using assms(2) that by (force simp add: spawn_safe_def)
  have "e_pos (evicted env ?s e) \<noteq> ?s" if "e \<in> set (g_enemies h)" for e
  proof (cases "e_pos e = ?s")
    case True
    have "?s \<in> e_pos ` set (g_enemies h)"
      using True that by force
    then have "vital env ?s (e_pos e)"
      using assms(2) True by (simp add: spawn_safe_def)
    then show ?thesis
      using sp [OF that] by (simp add: evicted_def enemy_respawn_def)
  next
    case False
    then show ?thesis
      using sp [OF that] by (simp add: evicted_def enemy_respawn_def)
  qed
  moreover have "?s \<notin> rk_pos ` set (g_rocks h)"
    using assms(2) by (simp add: spawn_safe_def)
  ultimately show ?thesis
    using assms(1) sp by (fastforce simp add: kill_digdug_evicts clear_of_def)
qed

lemma collide_enemy_hit_eq:
  assumes "d_lives (g_digdug h) > 1" and "i < length (g_enemies h)"
    and "e_pos (g_enemies h ! i) = d_pos (g_digdug h)"
  shows "collide_enemy env i h =
     h\<lparr>g_digdug := digdug_respawn (digdug_kill (g_digdug h)),
       g_enemies := (map (evicted env (d_spawn (g_digdug h))) (g_enemies h))
                      [i := enemy_respawn (g_enemies h ! i)]\<rparr>"
  using assms by (simp add: collide_enemy_def Let_def kill_digdug_evicts)

lemma takeWhile_before:
  "j < length (takeWhile P xs) \<Longrightarrow> P (xs ! j)"
  by (metis nth_mem set_takeWhileD takeWhile_nth)

lemma enemy_loop_eq:
  assumes "d_lives (g_digdug g) > 1" and "spawn_safe env g"
  shows "k \<le> length (g_enemies g) \<Longrightarrow>
    fold (collide_enemy env) [0..<k] g =
      (if k \<le> first_enemy g then g
       else g\<lparr>g_digdug := digdug_respawn (digdug_kill (g_digdug g)),
              g_enemies := (map (evicted env (d_spawn (g_digdug g))) (g_enemies g))
                             [first_enemy g := enemy_respawn (g_enemies g ! first_enemy g)]\<rparr>)"
proof (induction k)
  case 0
  show ?case by simp
next
  case (Suc k)
  let ?i = "first_enemy g"
  let ?hit = "g\<lparr>g_digdug := digdug_respawn (digdug_kill (g_digdug g)),
              g_enemies := (map (evicted env (d_spawn (g_digdug g))) (g_enemies g))
                             [?i := enemy_respawn (g_enemies g ! ?i)]\<rparr>"
  have kl: "k < length (g_enemies g)" using Suc.prems by simp
  have f: "fold (collide_enemy env) [0..<Suc k] g
         = collide_enemy env k (fold (collide_enemy env) [0..<k] g)"
    by simp
  have IH: "fold (collide_enemy env) [0..<k] g = (if k \<le> ?i then g else ?hit)"
    using Suc.IH kl by simp
  consider (before) "k < ?i" | (at) "k = ?i" | (after) "?i < k" by linarith
  then show ?case
  proof cases
    case before
    then have "e_pos (g_enemies g ! k) \<noteq> d_pos (g_digdug g)"
      unfolding first_enemy_def by (rule takeWhile_before)
    then have "collide_enemy env k g = g" by (rule collide_enemy_miss)
    with before show ?thesis unfolding f IH by simp
  next
    case at
    then have "\<not> e_pos (g_enemies g ! k) \<noteq> d_pos (g_digdug g)"
      using kl nth_length_takeWhile [of "\<lambda>e. e_pos e \<noteq> d_pos (g_digdug g)" "g_enemies g"]
      by (simp add: first_enemy_def)
    then have "e_pos (g_enemies g ! k) = d_pos (g_digdug g)" by simp
    from collide_enemy_hit_eq [OF assms(1) kl this, of env] at show ?thesis
      unfolding f IH by simp
  next
    case after
    have "clear_of (d_spawn (g_digdug g)) (kill_digdug env g)"
      using assms by (rule kill_clears)
    then have "clear_of (d_spawn (g_digdug g))
       ((kill_digdug env g)\<lparr>g_enemies := (g_enemies (kill_digdug env g))
           [?i := enemy_respawn (g_enemies (kill_digdug env g) ! ?i)]\<rparr>)"
      by (rule clear_update)
    moreover have "?i < length (g_enemies g)" using after kl by simp
    ultimately have c: "clear_of (d_spawn (g_digdug g)) ?hit"
      using assms(1) by (simp add: kill_digdug_evicts)
    have "e_pos (g_enemies ?hit ! k) \<noteq> d_spawn (g_digdug g)"
      using c kl by (intro clear_nth) simp_all
    then have "e_pos (g_enemies ?hit ! k) \<noteq> d_pos (g_digdug ?hit)"
      by (simp add: digdug_respawn_def digdug_kill_def)
    then have "collide_enemy env k ?hit = ?hit" by (rule collide_enemy_miss)
    with after show ?thesis unfolding f IH by simp
  qed
qed

lemma rocks_after_hit:
  assumes "d_lives (g_digdug h) > 1" and "rk_pos r = d_pos (g_digdug h)"
    and "d_spawn (g_digdug h) \<notin> rk_pos ` set (r # rest)"
  shows "fold (collide_rock env) (r # rest) h =
     h\<lparr>g_digdug := digdug_respawn (digdug_kill (g_digdug h)),
       g_enemies := map (crushed (r # rest)) (map (evicted env (d_spawn (g_digdug h))) (g_enemies h)),
       g_score := g_score h + ROCK_KILL_POINTS *
         int (crush_count (r # rest) (map (evicted env (d_spawn (g_digdug h))) (g_enemies h)))\<rparr>"
proof -
  let ?ev = "map (evicted env (d_spawn (g_digdug h))) (g_enemies h)"
  let ?h = "h\<lparr>g_digdug := digdug_respawn (digdug_kill (g_digdug h)),
       g_enemies := map (crushed [r]) ?ev,
       g_score := g_score h + ROCK_KILL_POINTS * int (crush_count [r] ?ev)\<rparr>"
  have step: "collide_rock env r h = ?h"
    using assms(1,2) by (simp add: collide_rock_def kill_digdug_evicts crush_eq crush_count_def)
  have "d_pos (g_digdug ?h) \<notin> rk_pos ` set rest"
    using assms(3) by (simp add: digdug_respawn_def digdug_kill_def)
  then have "fold (collide_rock env) rest ?h =
     ?h\<lparr>g_enemies := map (crushed rest) (g_enemies ?h),
       g_score := g_score ?h + ROCK_KILL_POINTS * int (crush_count rest (g_enemies ?h))\<rparr>"
    by (rule rocks_only)
  moreover have "crush_count rest (map (crushed [r]) ?ev) = crush_count rest ?ev"
    by (rule crush_count_cong) simp
  ultimately show ?thesis
    by (simp add: step crushed_Cons comp_def crush_count_Cons crush_count_def algebra_simps)
qed

lemma first_enemy_less:
  "first_enemy g < length (g_enemies g) \<longleftrightarrow> d_pos (g_digdug g) \<in> e_pos ` set (g_enemies g)"
proof -
  let ?P = "\<lambda>e. e_pos e \<noteq> d_pos (g_digdug g)"
  have "length (takeWhile ?P (g_enemies g)) = length (g_enemies g)
        \<longleftrightarrow> takeWhile ?P (g_enemies g) = g_enemies g"
    by (metis takeWhile_eq_take take_all order_refl)
  moreover have "length (takeWhile ?P (g_enemies g)) \<le> length (g_enemies g)"
    by (rule length_takeWhile_le)
  ultimately have "first_enemy g < length (g_enemies g) \<longleftrightarrow> \<not> (\<forall>e\<in>set (g_enemies g). ?P e)"
    unfolding first_enemy_def takeWhile_eq_all_conv [symmetric] by linarith
  then show ?thesis by force
qed

lemma first_rock_less:
  "first_rock g < length (g_rocks g) \<longleftrightarrow> d_pos (g_digdug g) \<in> rk_pos ` set (g_rocks g)"
proof -
  let ?P = "\<lambda>r. rk_pos r \<noteq> d_pos (g_digdug g)"
  have "length (takeWhile ?P (g_rocks g)) = length (g_rocks g)
        \<longleftrightarrow> takeWhile ?P (g_rocks g) = g_rocks g"
    by (metis takeWhile_eq_take take_all order_refl)
  moreover have "length (takeWhile ?P (g_rocks g)) \<le> length (g_rocks g)"
    by (rule length_takeWhile_le)
  ultimately have "first_rock g < length (g_rocks g) \<longleftrightarrow> \<not> (\<forall>r\<in>set (g_rocks g). ?P r)"
    unfolding first_rock_def takeWhile_eq_all_conv [symmetric] by linarith
  then show ?thesis by force
qed

lemma collision_enemy_contact:
  assumes "d_lives (g_digdug g) > 1" and "spawn_safe env g"
    and "first_enemy g < length (g_enemies g)"
  shows "collision env g =
     g\<lparr>g_digdug := digdug_respawn (digdug_kill (g_digdug g)),
       g_enemies := map (crushed (g_rocks g))
          ((map (evicted env (d_spawn (g_digdug g))) (g_enemies g))
             [first_enemy g := enemy_respawn (g_enemies g ! first_enemy g)]),
       g_score := g_score g + ROCK_KILL_POINTS *
          int (crush_count (g_rocks g)
            ((map (evicted env (d_spawn (g_digdug g))) (g_enemies g))
               [first_enemy g := enemy_respawn (g_enemies g ! first_enemy g)]))\<rparr>"
proof -
  let ?hit = "g\<lparr>g_digdug := digdug_respawn (digdug_kill (g_digdug g)),
              g_enemies := (map (evicted env (d_spawn (g_digdug g))) (g_enemies g))
                             [first_enemy g := enemy_respawn (g_enemies g ! first_enemy g)]\<rparr>"
  have loop: "fold (collide_enemy env) [0..<length (g_enemies g)] g = ?hit"
    using enemy_loop_eq [OF assms(1,2), of "length (g_enemies g)"] assms(3) by simp
  have "d_pos (g_digdug ?hit) \<notin> rk_pos ` set (g_rocks ?hit)"
    using assms(2) by (simp add: spawn_safe_def digdug_respawn_def digdug_kill_def)
  then have "fold (collide_rock env) (g_rocks ?hit) ?hit =
     ?hit\<lparr>g_enemies := map (crushed (g_rocks ?hit)) (g_enemies ?hit),
       g_score := g_score ?hit + ROCK_KILL_POINTS * int (crush_count (g_rocks ?hit) (g_enemies ?hit))\<rparr>"
    by (rule rocks_only)
  then show ?thesis
    by (simp add: collision_def Let_def loop)
qed

lemma collision_rock_contact:
  assumes "d_lives (g_digdug g) > 1" and "spawn_safe env g"
    and "first_enemy g = length (g_enemies g)" and "first_rock g < length (g_rocks g)"
  shows "collision env g =
     g\<lparr>g_digdug := digdug_respawn (digdug_kill (g_digdug g)),
       g_enemies := map (\<lambda>e. crushed (drop (first_rock g) (g_rocks g))
                               (evicted env (d_spawn (g_digdug g))
                                  (crushed (take (first_rock g) (g_rocks g)) e)))
                      (g_enemies g),
       g_score := g_score g + ROCK_KILL_POINTS *
          (int (crush_count (take (first_rock g) (g_rocks g)) (g_enemies g)) +
           int (crush_count (drop (first_rock g) (g_rocks g))
                  (map (evicted env (d_spawn (g_digdug g))) (g_enemies g))))\<rparr>"
proof -
  let ?j = "first_rock g"
  let ?P = "\<lambda>r. rk_pos r \<noteq> d_pos (g_digdug g)"
  let ?early = "take ?j (g_rocks g)"
  let ?late = "drop ?j (g_rocks g)"
  have loop: "fold (collide_enemy env) [0..<length (g_enemies g)] g = g"
    using enemy_loop_eq [OF assms(1,2), of "length (g_enemies g)"] assms(3) by simp
  have early: "?early = takeWhile ?P (g_rocks g)"
    unfolding first_rock_def by (rule takeWhile_eq_take [symmetric])
  have "d_pos (g_digdug g) \<notin> rk_pos ` set ?early"
    unfolding early by (auto dest: set_takeWhileD)
  then have one: "fold (collide_rock env) ?early g =
     g\<lparr>g_enemies := map (crushed ?early) (g_enemies g),
       g_score := g_score g + ROCK_KILL_POINTS * int (crush_count ?early (g_enemies g))\<rparr>"
    by (rule rocks_only)
  let ?g1 = "g\<lparr>g_enemies := map (crushed ?early) (g_enemies g),
       g_score := g_score g + ROCK_KILL_POINTS * int (crush_count ?early (g_enemies g))\<rparr>"
  have late: "?late = g_rocks g ! ?j # drop (Suc ?j) (g_rocks g)"
    using assms(4) by (simp add: Cons_nth_drop_Suc)
  have "\<not> ?P (g_rocks g ! ?j)"
    using assms(4) nth_length_takeWhile [of ?P "g_rocks g"] by (simp add: first_rock_def)
  then have at: "rk_pos (g_rocks g ! ?j) = d_pos (g_digdug ?g1)" by simp
  have "set ?late \<subseteq> set (g_rocks g)" by (rule set_drop_subset)
  then have away: "d_spawn (g_digdug ?g1) \<notin> rk_pos ` set (g_rocks g ! ?j # drop (Suc ?j) (g_rocks g))"
    using assms(2) unfolding late [symmetric] by (auto simp add: spawn_safe_def)
  have lives: "d_lives (g_digdug ?g1) > 1" using assms(1) by simp
  have two: "fold (collide_rock env) ?late ?g1 =
     ?g1\<lparr>g_digdug := digdug_respawn (digdug_kill (g_digdug ?g1)),
       g_enemies := map (crushed ?late) (map (evicted env (d_spawn (g_digdug ?g1))) (g_enemies ?g1)),
       g_score := g_score ?g1 + ROCK_KILL_POINTS *
         int (crush_count ?late (map (evicted env (d_spawn (g_digdug ?g1))) (g_enemies ?g1)))\<rparr>"
    unfolding late by (rule rocks_after_hit [OF lives at away])
  have cnt: "crush_count ?late (map (evicted env (d_spawn (g_digdug g))) (map (crushed ?early) (g_enemies g)))
      = crush_count ?late (map (evicted env (d_spawn (g_digdug g))) (g_enemies g))"
    by (rule crush_count_cong) simp
  have "collision env g = fold (collide_rock env) (?early @ ?late) g"
    by (simp add: collision_def Let_def loop)
  also have "\<dots> = fold (collide_rock env) ?late (fold (collide_rock env) ?early g)"
    by (simp only: fold_append comp_def)
  also have "\<dots> = fold (collide_rock env) ?late ?g1"
    by (simp only: one)
  finally show ?thesis
    using cnt by (simp add: two comp_def algebra_simps)
qed

text \<open>
  C5, amended. When the player has more than one life and its spawn cell is safe (no
  rock lies on it, no enemy has it as its spawn point, and an enemy standing on it passes
  the camper test), \<open>collision\<close> applies only the first collision in iteration order to
  the player, and its result is exact. If an enemy shares the player's cell: the player
  loses one life and stands on its spawn cell; the first such enemy of the list, and no
  later one, is sent to its spawn point by the contact; every other enemy moves only if
  the camper test of that one death sends it home; then the rocks crush the enemies on
  their cells, 1000 points each. If only a rock shares the player's cell: the rocks
  before the first such rock crush the enemies where they stood, that rock costs the one
  life, and it and the later rocks crush the enemies where the eviction left them. In
  both cases exactly one life is lost and the running flag is as it was.
\<close>

theorem collision_first_match:
  assumes "d_lives (g_digdug g) > 1" and "spawn_safe env g"
  shows
    "(first_enemy g < length (g_enemies g) \<longrightarrow>
        collision env g =
          g\<lparr>g_digdug := digdug_respawn (digdug_kill (g_digdug g)),
            g_enemies := map (crushed (g_rocks g))
               ((map (evicted env (d_spawn (g_digdug g))) (g_enemies g))
                  [first_enemy g := enemy_respawn (g_enemies g ! first_enemy g)]),
            g_score := g_score g + ROCK_KILL_POINTS *
               int (crush_count (g_rocks g)
                 ((map (evicted env (d_spawn (g_digdug g))) (g_enemies g))
                    [first_enemy g := enemy_respawn (g_enemies g ! first_enemy g)]))\<rparr>) \<and>
     (first_enemy g = length (g_enemies g) \<and> first_rock g < length (g_rocks g) \<longrightarrow>
        collision env g =
          g\<lparr>g_digdug := digdug_respawn (digdug_kill (g_digdug g)),
            g_enemies := map (\<lambda>e. crushed (drop (first_rock g) (g_rocks g))
                                    (evicted env (d_spawn (g_digdug g))
                                       (crushed (take (first_rock g) (g_rocks g)) e)))
                           (g_enemies g),
            g_score := g_score g + ROCK_KILL_POINTS *
               (int (crush_count (take (first_rock g) (g_rocks g)) (g_enemies g)) +
                int (crush_count (drop (first_rock g) (g_rocks g))
                       (map (evicted env (d_spawn (g_digdug g))) (g_enemies g))))\<rparr>) \<and>
     (d_pos (g_digdug g) \<in> e_pos ` set (g_enemies g) \<union> rk_pos ` set (g_rocks g) \<longrightarrow>
        d_lives (g_digdug (collision env g)) = d_lives (g_digdug g) - 1 \<and>
        d_pos (g_digdug (collision env g)) = d_spawn (g_digdug g) \<and>
        g_running (collision env g) = g_running g)"
proof (intro conjI impI)
  assume "first_enemy g < length (g_enemies g)"
  with assms show "collision env g =
          g\<lparr>g_digdug := digdug_respawn (digdug_kill (g_digdug g)),
            g_enemies := map (crushed (g_rocks g))
               ((map (evicted env (d_spawn (g_digdug g))) (g_enemies g))
                  [first_enemy g := enemy_respawn (g_enemies g ! first_enemy g)]),
            g_score := g_score g + ROCK_KILL_POINTS *
               int (crush_count (g_rocks g)
                 ((map (evicted env (d_spawn (g_digdug g))) (g_enemies g))
                    [first_enemy g := enemy_respawn (g_enemies g ! first_enemy g)]))\<rparr>"
    by (rule collision_enemy_contact)
next
  assume "first_enemy g = length (g_enemies g) \<and> first_rock g < length (g_rocks g)"
  with assms show "collision env g =
          g\<lparr>g_digdug := digdug_respawn (digdug_kill (g_digdug g)),
            g_enemies := map (\<lambda>e. crushed (drop (first_rock g) (g_rocks g))
                                    (evicted env (d_spawn (g_digdug g))
                                       (crushed (take (first_rock g) (g_rocks g)) e)))
                           (g_enemies g),
            g_score := g_score g + ROCK_KILL_POINTS *
               (int (crush_count (take (first_rock g) (g_rocks g)) (g_enemies g)) +
                int (crush_count (drop (first_rock g) (g_rocks g))
                       (map (evicted env (d_spawn (g_digdug g))) (g_enemies g))))\<rparr>"
    by (simp add: collision_rock_contact)
next
  assume c: "d_pos (g_digdug g) \<in> e_pos ` set (g_enemies g) \<union> rk_pos ` set (g_rocks g)"
  have le: "first_enemy g \<le> length (g_enemies g)"
    unfolding first_enemy_def by (rule length_takeWhile_le)
  have d: "g_digdug (collision env g) = digdug_respawn (digdug_kill (g_digdug g)) \<and>
           g_running (collision env g) = g_running g"
  proof (cases "first_enemy g < length (g_enemies g)")
    case True
    with assms show ?thesis by (simp add: collision_enemy_contact)
  next
    case False
    with le have n: "first_enemy g = length (g_enemies g)" by simp
    then have "d_pos (g_digdug g) \<notin> e_pos ` set (g_enemies g)"
      using first_enemy_less [of g] by simp
    with c have "first_rock g < length (g_rocks g)"
      by (simp add: first_rock_less)
    with assms n show ?thesis by (simp add: collision_rock_contact)
  qed
  show "d_lives (g_digdug (collision env g)) = d_lives (g_digdug g) - 1"
    using d by (simp add: digdug_respawn_def digdug_kill_def)
  show "d_pos (g_digdug (collision env g)) = d_spawn (g_digdug g)"
    using d by (simp add: digdug_respawn_def digdug_kill_def)
  show "g_running (collision env g) = g_running g"
    using d by simp
qed

theorem collision_first_match_witness:
  "d_lives (g_digdug (collision field crowded3)) = 2 \<and>
   d_pos (g_digdug (collision field crowded3)) = (1, 1) \<and>
   g_running (collision field crowded3) \<and>
   map e_pos (g_enemies (collision field crowded3)) = [(10, 10), (7, 7), (10, 20)] \<and>
   d_lives (g_digdug (collision field on_rock)) = 1 \<and>
   d_pos (g_digdug (collision field on_rock)) = (1, 1) \<and>
   d_lives (g_digdug (collision field at_home)) = 2 \<and>
   d_pos (g_digdug (collision field at_home)) = (1, 1) \<and>
   map e_pos (g_enemies (collision field at_home)) = [(10, 10), (20, 10), (10, 20)]"
proof -
  have l: "d_lives (g_digdug crowded3) > 1" "d_lives (g_digdug on_rock) > 1"
    "d_lives (g_digdug at_home) > 1"
    by (simp_all add: crowded3_def crowded_def on_rock_def at_home_def match0_def)
  have s: "spawn_safe field crowded3" "spawn_safe field on_rock" "spawn_safe field at_home"
    by code_simp+
  have m: "d_pos (g_digdug crowded3) \<in> e_pos ` set (g_enemies crowded3) \<union> rk_pos ` set (g_rocks crowded3)"
    "d_pos (g_digdug on_rock) \<in> e_pos ` set (g_enemies on_rock) \<union> rk_pos ` set (g_rocks on_rock)"
    "d_pos (g_digdug at_home) \<in> e_pos ` set (g_enemies at_home) \<union> rk_pos ` set (g_rocks at_home)"
    by code_simp+
  have p: "map e_pos (g_enemies (collision field crowded3)) = [(10, 10), (7, 7), (10, 20)]"
    "map e_pos (g_enemies (collision field at_home)) = [(10, 10), (20, 10), (10, 20)]"
    by code_simp+
  have v: "d_lives (g_digdug crowded3) = 3" "d_spawn (g_digdug crowded3) = (1, 1)"
    "g_running crowded3" "d_lives (g_digdug on_rock) = 2" "d_spawn (g_digdug on_rock) = (1, 1)"
    "d_lives (g_digdug at_home) = 3" "d_spawn (g_digdug at_home) = (1, 1)"
    by (simp_all add: crowded3_def crowded_def on_rock_def at_home_def match0_def)
  note t1 = collision_first_match [OF l(1) s(1), THEN conjunct2, THEN conjunct2, THEN mp, OF m(1)]
  note t2 = collision_first_match [OF l(2) s(2), THEN conjunct2, THEN conjunct2, THEN mp, OF m(2)]
  note t3 = collision_first_match [OF l(3) s(3), THEN conjunct2, THEN conjunct2, THEN mp, OF m(3)]
  from t1 t2 t3 p v show ?thesis by simp
qed

end
